theory Spec2Isabelle
  imports Main
begin

section \<open>The training scheduler of \<^verbatim>\<open>train.py\<close>\<close>

text \<open>
  The function \<^verbatim>\<open>training\<close> drives one loop over the iteration counter and, per
  iteration, calls into the Gaussian model, the renderer and the optimizer in a fixed
  order. Those collaborators are not part of the file; what the file decides is which of
  their operations runs at which iteration and in which order. The embedding therefore
  records every such call as an event, keeps the one piece of loop state that feeds back
  into the control flow (\<^verbatim>\<open>KNN_index\<close>), and returns the events of each executed
  iteration.

  Python integers are unbounded, so the counters and the configured boundaries are
  \<^typ>\<open>int\<close>. Python's \<^verbatim>\<open>%\<close> raises \<^verbatim>\<open>ZeroDivisionError\<close> on a zero divisor, where
  HOL's \<open>mod\<close> returns the dividend; the raise is a branch of the model. For a divisor
  other than zero both take the sign of the divisor, so they agree.

  Left out, because no call into the model, the optimizer or the neighbour graph depends
  on it: the timing events, the progress bar, the debug switch, the choice of the
  background colour and the choice of the camera (the scene is taken to hold at least
  one training camera).
\<close>

subsection \<open>Configuration, errors and events\<close>

datatype error = ZeroDivisionError

text \<open>
  The fields of \<^verbatim>\<open>opt\<close> and \<^verbatim>\<open>dataset\<close> and the iteration lists the loop reads, and
  the module flag \<^verbatim>\<open>WANDB_FOUND\<close>.
\<close>

record params =
  iterations :: int
  densify_from_iter :: int
  densify_until_iter :: int
  densification_interval :: int
  opacity_reset_interval :: int
  white_background :: bool
  saving_iterations :: "int list"
  checkpoint_iterations :: "int list"
  wandb_found :: bool

text \<open>
  One event per call the loop makes. \<open>GeoLoss g\<close> is the call of \<^verbatim>\<open>SurfaceAlign\<close> on
  \<^verbatim>\<open>KNN_index[mask]\<close> together with the addition of its result to the loss, where \<open>g\<close>
  is the iteration whose \<^verbatim>\<open>findKNN\<close> call returned the graph held in \<^verbatim>\<open>KNN_index\<close>.
  \<open>DensifyAndPrune s\<close> carries the \<^verbatim>\<open>size_threshold\<close> argument (\<open>None\<close> for Python's
  \<^verbatim>\<open>None\<close>). \<open>SaveCheckpoint i\<close> is
  \<^verbatim>\<open>torch.save((gaussians.capture(), iteration), ...)\<close> at iteration \<open>i\<close>: the saved pair
  is the model's capture at that moment and the counter \<open>i\<close>.
\<close>

datatype event =
    UpdateLearningRate int
  | OneUpSHDegree
  | Render
  | PhotometricLoss
  | GeoLoss int
  | Backward
  | TrainingReport int
  | SceneSave int
  | WandbLog
  | MaxRadiiUpdate
  | AddDensificationStats
  | DensifyAndPrune "int option"
  | FindKNN
  | ResetOpacity
  | OptimizerStep
  | ZeroGrad
  | SaveCheckpoint int

fun is_densify :: "event \<Rightarrow> bool" where
  "is_densify (DensifyAndPrune s) = True"
| "is_densify e = False"

fun is_geo_loss :: "event \<Rightarrow> bool" where
  "is_geo_loss (GeoLoss g) = True"
| "is_geo_loss e = False"

fun is_stats :: "event \<Rightarrow> bool" where
  "is_stats MaxRadiiUpdate = True"
| "is_stats AddDensificationStats = True"
| "is_stats e = False"

subsection \<open>One iteration\<close>

definition py_mod :: "int \<Rightarrow> int \<Rightarrow> error + int" where
  "py_mod a b = (if b = 0 then Inl ZeroDivisionError else Inr (a mod b))"

text \<open>
  The geometric term (lines 108 to 127): skipped while \<^verbatim>\<open>KNN_index\<close> is \<^verbatim>\<open>None\<close>, and
  skipped when \<^verbatim>\<open>visibility_filter.sum()\<close> is not positive. The renderer is outside the
  file, so the number of visible primitives at each iteration is a parameter.
\<close>

definition geo_loss :: "(int \<Rightarrow> nat) \<Rightarrow> int \<Rightarrow> int option \<Rightarrow> event list" where
  "geo_loss visible_count iteration KNN_index =
     (case KNN_index of
        None \<Rightarrow> []
      | Some g \<Rightarrow> if visible_count iteration > 0 then [GeoLoss g] else [])"

text \<open>Lines 72 to 156: schedule, render, loss, backward pass, report and save.\<close>

definition forward_events :: "params \<Rightarrow> (int \<Rightarrow> nat) \<Rightarrow> int \<Rightarrow> int option \<Rightarrow> event list" where
  "forward_events opt visible_count iteration KNN_index =
     [UpdateLearningRate iteration]
     @ (if iteration mod 1000 = 0 then [OneUpSHDegree] else [])
     @ [Render, PhotometricLoss]
     @ geo_loss visible_count iteration KNN_index
     @ [Backward, TrainingReport iteration]
     @ (if iteration \<in> set (saving_iterations opt) then [SceneSave iteration] else [])
     @ (if wandb_found opt then [WandbLog] else [])"

text \<open>Line 165: \<^verbatim>\<open>20 if iteration > opt.opacity_reset_interval else None\<close>.\<close>

definition size_threshold :: "params \<Rightarrow> int \<Rightarrow> int option" where
  "size_threshold opt iteration =
     (if iteration > opacity_reset_interval opt then Some 20 else None)"

text \<open>
  Line 164: \<^verbatim>\<open>iteration > opt.densify_from_iter and iteration % opt.densification_interval == 0\<close>.
  The conjunction is short-circuit, so the modulus is taken (and can raise) only past
  \<^verbatim>\<open>densify_from_iter\<close>.
\<close>

definition densify_due :: "params \<Rightarrow> int \<Rightarrow> error + bool" where
  "densify_due opt iteration =
     (if iteration > densify_from_iter opt then
        (case py_mod iteration (densification_interval opt) of
           Inl e \<Rightarrow> Inl e
         | Inr r \<Rightarrow> Inr (r = 0))
      else Inr False)"

text \<open>
  Line 170: \<^verbatim>\<open>iteration % opt.opacity_reset_interval == 0 or (dataset.white_background and iteration == opt.densify_from_iter)\<close>.
  The modulus is the first operand, so it is always taken.
\<close>

definition reset_due :: "params \<Rightarrow> int \<Rightarrow> error + bool" where
  "reset_due opt iteration =
     (case py_mod iteration (opacity_reset_interval opt) of
        Inl e \<Rightarrow> Inl e
      | Inr r \<Rightarrow> Inr (r = 0 \<or> (white_background opt \<and> iteration = densify_from_iter opt)))"

text \<open>
  Lines 159 to 174. The result is the events of the block and the value of
  \<^verbatim>\<open>KNN_index\<close> after it: \<open>Some iteration\<close> when \<^verbatim>\<open>findKNN\<close> was called. At
  \<^verbatim>\<open>iteration == opt.densify_until_iter\<close> neither branch is taken.
\<close>

definition densification ::
  "params \<Rightarrow> int \<Rightarrow> int option \<Rightarrow> error + (event list \<times> int option)" where
  "densification opt iteration KNN_index =
     (if iteration < densify_until_iter opt then
        (case densify_due opt iteration of
           Inl e \<Rightarrow> Inl e
         | Inr d \<Rightarrow>
             (case reset_due opt iteration of
                Inl e \<Rightarrow> Inl e
              | Inr r \<Rightarrow>
                  Inr ([MaxRadiiUpdate, AddDensificationStats]
                       @ (if d then [DensifyAndPrune (size_threshold opt iteration), FindKNN]
                          else [])
                       @ (if r then [ResetOpacity] else []),
                       if d then Some iteration else KNN_index)))
      else if iteration > densify_until_iter opt then
        (if iteration mod 3000 = 0 then Inr ([FindKNN], Some iteration)
         else Inr ([], KNN_index))
      else Inr ([], KNN_index))"

text \<open>Lines 176 to 191: the second log, the optimizer step and the checkpoint.\<close>

definition step_events :: "params \<Rightarrow> int \<Rightarrow> event list" where
  "step_events opt iteration =
     (if wandb_found opt then [WandbLog] else [])
     @ (if iteration < iterations opt then [OptimizerStep, ZeroGrad] else [])
     @ (if iteration \<in> set (checkpoint_iterations opt) then [SaveCheckpoint iteration]
        else [])"

text \<open>
  The body of the loop. An exception raised in the densification block ends the run, so
  the iteration then has no result.
\<close>

definition training_iteration ::
  "params \<Rightarrow> (int \<Rightarrow> nat) \<Rightarrow> int \<Rightarrow> int option \<Rightarrow> error + (event list \<times> int option)" where
  "training_iteration opt visible_count iteration KNN_index =
     (case densification opt iteration KNN_index of
        Inl e \<Rightarrow> Inl e
      | Inr (dens, KNN_index') \<Rightarrow>
          Inr (forward_events opt visible_count iteration KNN_index
               @ dens
               @ step_events opt iteration,
               KNN_index'))"

subsection \<open>The loop and its entry\<close>

text \<open>
  \<^verbatim>\<open>for iteration in range(first_iter, opt.iterations + 1)\<close>, over the list of the
  counter's values. The result pairs every executed iteration with its events.
\<close>

fun training_loop ::
  "params \<Rightarrow> (int \<Rightarrow> nat) \<Rightarrow> int option \<Rightarrow> int list
     \<Rightarrow> error + ((int \<times> event list) list \<times> int option)" where
  "training_loop opt visible_count KNN_index [] = Inr ([], KNN_index)"
| "training_loop opt visible_count KNN_index (iteration # rest) =
     (case training_iteration opt visible_count iteration KNN_index of
        Inl e \<Rightarrow> Inl e
      | Inr (evs, KNN_index') \<Rightarrow>
          (case training_loop opt visible_count KNN_index' rest of
             Inl e \<Rightarrow> Inl e
           | Inr (tr, k) \<Rightarrow> Inr ((iteration, evs) # tr, k)))"

text \<open>
  What a run leaves behind: the snapshot handed to \<^verbatim>\<open>gaussians.restore\<close>, if any, and
  the executed iterations in order.
\<close>

record 's run =
  restored :: "'s option"
  iters :: "(int \<times> event list) list"

text \<open>
  Lines 43 to 68. \<open>checkpoint\<close> is what \<^verbatim>\<open>torch.load(checkpoint)\<close> returns, the pair
  \<^verbatim>\<open>(model_params, first_iter)\<close>, or \<open>None\<close> when no checkpoint path was given.
  \<^verbatim>\<open>KNN_index\<close> starts as \<^verbatim>\<open>None\<close> in both cases.
\<close>

definition first_iter :: "('s \<times> int) option \<Rightarrow> int" where
  "first_iter checkpoint = (case checkpoint of None \<Rightarrow> 0 | Some (model_params, k) \<Rightarrow> k)"

definition training ::
  "params \<Rightarrow> (int \<Rightarrow> nat) \<Rightarrow> ('s \<times> int) option \<Rightarrow> error + 's run" where
  "training opt visible_count checkpoint =
     (case training_loop opt visible_count None
             [first_iter checkpoint + 1 .. iterations opt] of
        Inl e \<Rightarrow> Inl e
      | Inr (tr, k) \<Rightarrow> Inr \<lparr>restored = map_option fst checkpoint, iters = tr\<rparr>)"

subsection \<open>Reading a run\<close>

text \<open>
  The events of a run in the order they happen, each tagged with its iteration.
\<close>

definition timeline :: "(int \<times> event list) list \<Rightarrow> (int \<times> event) list" where
  "timeline tr = concat (map (\<lambda>(i, evs). map (Pair i) evs) tr)"

text \<open>
  The neighbour graph lists primitives by their index, and the indices are those of the
  population at the moment \<^verbatim>\<open>findKNN\<close> ran. Of the calls the loop makes, only
  \<^verbatim>\<open>densify_and_prune\<close> adds, removes or renumbers primitives; \<^verbatim>\<open>reset_opacity\<close> and
  the optimizer step change values and leave the index layout alone. \<open>graph_step\<close>
  follows, along a timeline, which graph matches the current index layout: none after a
  \<^verbatim>\<open>densify_and_prune\<close>, the newly built one after a \<^verbatim>\<open>findKNN\<close>.
\<close>

fun graph_step :: "int option \<Rightarrow> int \<times> event \<Rightarrow> int option" where
  "graph_step g (i, DensifyAndPrune s) = None"
| "graph_step g (i, FindKNN) = Some i"
| "graph_step g (i, e) = g"

text \<open>
  \<open>fresh_uses g tl\<close>: along \<open>tl\<close>, started with \<open>g\<close> as the matching graph, every
  \<open>GeoLoss j\<close> indexes the graph that matches the population at that moment.
\<close>

fun fresh_uses :: "int option \<Rightarrow> (int \<times> event) list \<Rightarrow> bool" where
  "fresh_uses g [] = True"
| "fresh_uses g ((i, GeoLoss j) # rest) = (g = Some j \<and> fresh_uses g rest)"
| "fresh_uses g (x # rest) = fresh_uses (graph_step g x) rest"

subsection \<open>Three concrete runs\<close>

text \<open>
  A run of five iterations from scratch, with the densification window open from
  iteration 2 to iteration 4 and every interval equal to 1.
\<close>

definition demo_opt :: params where
  "demo_opt = \<lparr>iterations = 5, densify_from_iter = 2, densify_until_iter = 4,
     densification_interval = 1, opacity_reset_interval = 1, white_background = False,
     saving_iterations = [5], checkpoint_iterations = [3], wandb_found = False\<rparr>"

definition demo_visible :: "int \<Rightarrow> nat" where
  "demo_visible i = 1"

definition demo_ev1 :: "event list" where
  "demo_ev1 = [UpdateLearningRate 1, Render, PhotometricLoss, Backward, TrainingReport 1,
     MaxRadiiUpdate, AddDensificationStats, ResetOpacity, OptimizerStep, ZeroGrad]"

definition demo_ev2 :: "event list" where
  "demo_ev2 = [UpdateLearningRate 2, Render, PhotometricLoss, Backward, TrainingReport 2,
     MaxRadiiUpdate, AddDensificationStats, ResetOpacity, OptimizerStep, ZeroGrad]"

definition demo_ev3 :: "event list" where
  "demo_ev3 = [UpdateLearningRate 3, Render, PhotometricLoss, Backward, TrainingReport 3,
     MaxRadiiUpdate, AddDensificationStats, DensifyAndPrune (Some 20), FindKNN,
     ResetOpacity, OptimizerStep, ZeroGrad, SaveCheckpoint 3]"

definition demo_ev4 :: "event list" where
  "demo_ev4 = [UpdateLearningRate 4, Render, PhotometricLoss, GeoLoss 3, Backward,
     TrainingReport 4, OptimizerStep, ZeroGrad]"

definition demo_ev5 :: "event list" where
  "demo_ev5 = [UpdateLearningRate 5, Render, PhotometricLoss, GeoLoss 3, Backward,
     TrainingReport 5, SceneSave 5]"

definition demo_run :: "unit run" where
  "demo_run = \<lparr>restored = None,
     iters = [(1, demo_ev1), (2, demo_ev2), (3, demo_ev3), (4, demo_ev4), (5, demo_ev5)]\<rparr>"

text \<open>
  A run resumed from a checkpoint saved at iteration 2999, long after the densification
  window (10 to 100) has closed, up to iteration 3001.
\<close>

definition resume_opt :: params where
  "resume_opt = \<lparr>iterations = 3001, densify_from_iter = 10, densify_until_iter = 100,
     densification_interval = 5, opacity_reset_interval = 50, white_background = False,
     saving_iterations = [], checkpoint_iterations = [3000], wandb_found = False\<rparr>"

definition resume_ev3000 :: "event list" where
  "resume_ev3000 = [UpdateLearningRate 3000, OneUpSHDegree, Render, PhotometricLoss,
     Backward, TrainingReport 3000, FindKNN, OptimizerStep, ZeroGrad, SaveCheckpoint 3000]"

definition resume_ev3001 :: "event list" where
  "resume_ev3001 = [UpdateLearningRate 3001, Render, PhotometricLoss, GeoLoss 3000,
     Backward, TrainingReport 3001]"

definition resume_run :: "unit run" where
  "resume_run = \<lparr>restored = Some (),
     iters = [(3000, resume_ev3000), (3001, resume_ev3001)]\<rparr>"

text \<open>
  The same resumption with the window closing at iteration 3000, which is also the last
  iteration.
\<close>

definition boundary_opt :: params where
  "boundary_opt = \<lparr>iterations = 3000, densify_from_iter = 10, densify_until_iter = 3000,
     densification_interval = 7, opacity_reset_interval = 50, white_background = False,
     saving_iterations = [], checkpoint_iterations = [], wandb_found = False\<rparr>"

definition boundary_ev3000 :: "event list" where
  "boundary_ev3000 = [UpdateLearningRate 3000, OneUpSHDegree, Render, PhotometricLoss,
     Backward, TrainingReport 3000]"

definition boundary_run :: "unit run" where
  "boundary_run = \<lparr>restored = Some (), iters = [(3000, boundary_ev3000)]\<rparr>"

section \<open>Properties of the loop\<close>

subsection \<open>The runs evaluated\<close>

lemmas eval_defs = training_def first_iter_def training_iteration_def densification_def
  densify_due_def reset_due_def py_mod_def forward_events_def step_events_def geo_loss_def
  size_threshold_def

lemmas demo_defs = demo_opt_def demo_visible_def demo_run_def demo_ev1_def demo_ev2_def
  demo_ev3_def demo_ev4_def demo_ev5_def

lemmas resume_defs = resume_opt_def demo_visible_def resume_run_def resume_ev3000_def
  resume_ev3001_def

lemmas boundary_defs = boundary_opt_def demo_visible_def boundary_run_def
  boundary_ev3000_def

lemma demo_training: "training demo_opt demo_visible None = Inr demo_run"
  by (simp add: eval_defs demo_defs upto_rec1)

lemma resume_training: "training resume_opt demo_visible (Some ((), 2999)) = Inr resume_run"
  by (simp add: eval_defs resume_defs upto_rec1)

lemma boundary_training:
  "training boundary_opt demo_visible (Some ((), 2999)) = Inr boundary_run"
  by (simp add: eval_defs boundary_defs upto_rec1)

subsection \<open>The loop visits the iterations in order\<close>

lemma training_loop_fst:
  "training_loop opt vc k its = Inr (tr, k') \<Longrightarrow> map fst tr = its"
  by (induction its arbitrary: k tr) (auto split: sum.splits prod.splits)

lemma training_loop_unfold:
  assumes "training_loop opt vc k (j # js) = Inr (tr, k')"
  obtains e k1 tr' where "training_iteration opt vc j k = Inr (e, k1)"
    and "training_loop opt vc k1 js = Inr (tr', k')" and "tr = (j, e) # tr'"
  using assms by (auto split: sum.splits prod.splits)

lemma training_loop_member:
  "training_loop opt vc k its = Inr (tr, k') \<Longrightarrow> (i, evs) \<in> set tr \<Longrightarrow>
     \<exists>k0 k1. training_iteration opt vc i k0 = Inr (evs, k1)"
proof (induction its arbitrary: k tr)
  case Nil
  then show ?case by simp
next
  case (Cons j js)
  from Cons.prems(1) obtain e k1 tr' where
    st: "training_iteration opt vc j k = Inr (e, k1)" and
    lp: "training_loop opt vc k1 js = Inr (tr', k')" and
    tr: "tr = (j, e) # tr'"
    by (rule training_loop_unfold)
  show ?case
  proof (cases "(i, evs) = (j, e)")
    case True
    with st show ?thesis by blast
  next
    case False
    with Cons.prems(2) tr have "(i, evs) \<in> set tr'" by auto
    with Cons.IH[OF lp] show ?thesis by blast
  qed
qed

lemma training_loop_at:
  "training_loop opt vc k its = Inr (tr, k') \<Longrightarrow> tr = tr1 @ (i, evs) # tr2 \<Longrightarrow>
     \<exists>k0 k1. training_loop opt vc k (map fst tr1) = Inr (tr1, k0) \<and>
       training_iteration opt vc i k0 = Inr (evs, k1)"
proof (induction tr1 arbitrary: k its tr)
  case Nil
  then show ?case by (cases its) (auto split: sum.splits prod.splits)
next
  case (Cons p ps)
  from Cons.prems obtain j js where its: "its = j # js" by (cases its) auto
  from Cons.prems(1) obtain e k1 tr' where
    st: "training_iteration opt vc j k = Inr (e, k1)" and
    lp: "training_loop opt vc k1 js = Inr (tr', k')" and
    tr: "tr = (j, e) # tr'"
    unfolding its by (rule training_loop_unfold)
  from tr Cons.prems(2) have p: "p = (j, e)" and tr': "tr' = ps @ (i, evs) # tr2" by auto
  from Cons.IH[OF lp tr'] obtain k0 k2 where
    "training_loop opt vc k1 (map fst ps) = Inr (ps, k0)"
    "training_iteration opt vc i k0 = Inr (evs, k2)" by blast
  with st p show ?case by auto
qed

lemma training_unfold:
  assumes "training opt vc ck = Inr r"
  obtains k where
    "training_loop opt vc None [first_iter ck + 1 .. iterations opt] = Inr (iters r, k)"
    and "restored r = map_option fst ck"
  using assms by (auto simp: training_def split: sum.splits prod.splits)

lemma training_iterations:
  assumes "training opt vc ck = Inr r"
  shows "map fst (iters r) = [first_iter ck + 1 .. iterations opt]"
  using assms by (auto elim!: training_unfold dest: training_loop_fst)

lemma training_member:
  assumes "training opt vc ck = Inr r" and "(i, evs) \<in> set (iters r)"
  shows "\<exists>k0 k1. training_iteration opt vc i k0 = Inr (evs, k1)"
    and "first_iter ck < i" and "i \<le> iterations opt"
proof -
  from assms(1) obtain k where
    L: "training_loop opt vc None [first_iter ck + 1 .. iterations opt] = Inr (iters r, k)"
    by (rule training_unfold)
  from training_loop_member[OF L assms(2)]
  show "\<exists>k0 k1. training_iteration opt vc i k0 = Inr (evs, k1)" .
  from assms(2) have "i \<in> set (map fst (iters r))" by force
  then have "i \<in> set [first_iter ck + 1 .. iterations opt]"
    using training_iterations[OF assms(1)] by simp
  then show "first_iter ck < i" and "i \<le> iterations opt" by auto
qed

subsection \<open>The run does not raise when the two intervals are not zero\<close>

lemma densification_total:
  assumes "densification_interval opt \<noteq> 0" and "opacity_reset_interval opt \<noteq> 0"
  shows "\<exists>dens k'. densification opt i k = Inr (dens, k')"
proof -
  from assms(1) have "\<exists>d. densify_due opt i = Inr d"
    by (auto simp: densify_due_def py_mod_def)
  then obtain d where d: "densify_due opt i = Inr d" by blast
  from assms(2) have "\<exists>c. reset_due opt i = Inr c"
    by (auto simp: reset_due_def py_mod_def)
  then obtain c where c: "reset_due opt i = Inr c" by blast
  show ?thesis by (simp add: densification_def d c)
qed

lemma training_iteration_total:
  assumes "densification_interval opt \<noteq> 0" and "opacity_reset_interval opt \<noteq> 0"
  shows "\<exists>evs k'. training_iteration opt vc i k = Inr (evs, k')"
proof -
  from densification_total[OF assms] obtain dens k' where
    "densification opt i k = Inr (dens, k')" by blast
  then show ?thesis by (simp add: training_iteration_def)
qed

lemma training_loop_total:
  assumes "densification_interval opt \<noteq> 0" and "opacity_reset_interval opt \<noteq> 0"
  shows "\<exists>tr k'. training_loop opt vc k its = Inr (tr, k')"
proof (induction its arbitrary: k)
  case Nil
  then show ?case by simp
next
  case (Cons j js)
  from training_iteration_total[OF assms] obtain e k1 where
    "training_iteration opt vc j k = Inr (e, k1)" by blast
  moreover from Cons obtain tr k' where "training_loop opt vc k1 js = Inr (tr, k')" by blast
  ultimately show ?case by simp
qed

lemma training_total:
  assumes "densification_interval opt \<noteq> 0" and "opacity_reset_interval opt \<noteq> 0"
  shows "\<exists>r. training opt vc ck = Inr r"
  using training_loop_total[OF assms, of vc None "[first_iter ck + 1 .. iterations opt]"]
  by (auto simp: training_def)

subsection \<open>The three parts of an iteration\<close>

lemma training_iteration_split:
  assumes "training_iteration opt vc i k = Inr (evs, k')"
  shows "\<exists>dens. densification opt i k = Inr (dens, k') \<and>
           evs = forward_events opt vc i k @ dens @ step_events opt i"
  using assms by (auto simp: training_iteration_def split: sum.splits prod.splits)

lemma training_iteration_events:
  assumes "training opt vc ck = Inr r" and "(i, evs) \<in> set (iters r)"
  obtains k0 k1 dens where "densification opt i k0 = Inr (dens, k1)"
    and "evs = forward_events opt vc i k0 @ dens @ step_events opt i"
    and "first_iter ck < i" and "i \<le> iterations opt"
  using training_member[OF assms] training_iteration_split by blast

lemma forward_events_only:
  assumes "e \<in> set (forward_events opt vc i k)"
  shows "e \<in> {UpdateLearningRate i, OneUpSHDegree, Render, PhotometricLoss, Backward,
              TrainingReport i, SceneSave i, WandbLog}
         \<or> (\<exists>g. k = Some g \<and> 0 < vc i \<and> e = GeoLoss g)"
  using assms
  by (auto simp: forward_events_def geo_loss_def split: option.splits if_splits)

lemma step_events_only:
  assumes "e \<in> set (step_events opt i)"
  shows "e = WandbLog \<or> (i < iterations opt \<and> (e = OptimizerStep \<or> e = ZeroGrad))
         \<or> (i \<in> set (checkpoint_iterations opt) \<and> e = SaveCheckpoint i)"
  using assms by (auto simp: step_events_def split: if_splits)

lemma forward_events_free:
  "DensifyAndPrune s \<notin> set (forward_events opt vc i k)"
  "FindKNN \<notin> set (forward_events opt vc i k)"
  "ResetOpacity \<notin> set (forward_events opt vc i k)"
  "OptimizerStep \<notin> set (forward_events opt vc i k)"
  "ZeroGrad \<notin> set (forward_events opt vc i k)"
  "SaveCheckpoint j \<notin> set (forward_events opt vc i k)"
  by (auto dest: forward_events_only)

lemma step_events_free:
  "DensifyAndPrune s \<notin> set (step_events opt i)"
  "FindKNN \<notin> set (step_events opt i)"
  "ResetOpacity \<notin> set (step_events opt i)"
  "Backward \<notin> set (step_events opt i)"
  by (auto dest: step_events_only)

lemma forward_events_no_stats: "\<not> list_ex is_stats (forward_events opt vc i k)"
  by (auto simp: list_ex_iff dest: forward_events_only)

lemma forward_events_no_densify: "\<not> list_ex is_densify (forward_events opt vc i k)"
  by (auto simp: list_ex_iff dest: forward_events_only)

lemma step_events_no_stats: "\<not> list_ex is_stats (step_events opt i)"
  by (auto simp: list_ex_iff dest: step_events_only)

lemma step_events_no_densify: "\<not> list_ex is_densify (step_events opt i)"
  by (auto simp: list_ex_iff dest: step_events_only)

lemma step_events_no_geo_loss: "\<not> list_ex is_geo_loss (step_events opt i)"
  by (auto simp: list_ex_iff dest: step_events_only)

lemma forward_events_Backward: "Backward \<in> set (forward_events opt vc i k)"
  by (simp add: forward_events_def)

lemma forward_events_geo_loss:
  "list_ex is_geo_loss (forward_events opt vc i k) = (k \<noteq> None \<and> 0 < vc i)"
  by (auto simp: forward_events_def geo_loss_def split: option.splits)

text \<open>The densification block by region of the iteration counter.\<close>

lemma densification_before:
  assumes "densification opt i k = Inr (dens, k')" and "i < densify_until_iter opt"
  shows "dens = [MaxRadiiUpdate, AddDensificationStats]
                @ (if densify_from_iter opt < i \<and> i mod densification_interval opt = 0
                   then [DensifyAndPrune (size_threshold opt i), FindKNN] else [])
                @ (if i mod opacity_reset_interval opt = 0 \<or>
                      (white_background opt \<and> i = densify_from_iter opt)
                   then [ResetOpacity] else [])"
    and "k' = (if densify_from_iter opt < i \<and> i mod densification_interval opt = 0
               then Some i else k)"
    and "opacity_reset_interval opt \<noteq> 0"
    and "densify_from_iter opt < i \<longrightarrow> densification_interval opt \<noteq> 0"
  using assms
  by (auto simp: densification_def densify_due_def reset_due_def py_mod_def
           split: if_splits sum.splits)

lemma densification_at:
  assumes "densification opt i k = Inr (dens, k')" and "i = densify_until_iter opt"
  shows "dens = []" and "k' = k"
  using assms by (auto simp: densification_def)

lemma densification_after:
  assumes "densification opt i k = Inr (dens, k')" and "densify_until_iter opt < i"
  shows "dens = (if i mod 3000 = 0 then [FindKNN] else [])"
    and "k' = (if i mod 3000 = 0 then Some i else k)"
  using assms by (auto simp: densification_def split: if_splits)

lemma densification_only:
  assumes "densification opt i k = Inr (dens, k')" and "e \<in> set dens"
  shows "e \<in> {MaxRadiiUpdate, AddDensificationStats, DensifyAndPrune (size_threshold opt i),
              FindKNN, ResetOpacity}"
proof -
  consider "i < densify_until_iter opt" | "i = densify_until_iter opt"
    | "densify_until_iter opt < i" by linarith
  then show ?thesis
  proof cases
    case 1
    from densification_before(1)[OF assms(1) 1] assms(2) show ?thesis
      by (auto split: if_splits)
  next
    case 2
    from densification_at(1)[OF assms(1) 2] assms(2) show ?thesis by simp
  next
    case 3
    from densification_after(1)[OF assms(1) 3] assms(2) show ?thesis
      by (auto split: if_splits)
  qed
qed

lemma densification_free:
  assumes "densification opt i k = Inr (dens, k')"
  shows "OptimizerStep \<notin> set dens" and "ZeroGrad \<notin> set dens"
    and "Backward \<notin> set dens" and "SaveCheckpoint j \<notin> set dens"
    and "\<not> list_ex is_geo_loss dens"
proof -
  show "OptimizerStep \<notin> set dens" and "ZeroGrad \<notin> set dens"
    and "Backward \<notin> set dens" and "SaveCheckpoint j \<notin> set dens"
    using densification_only[OF assms] by auto
  have "\<not> is_geo_loss e" if "e \<in> set dens" for e
    using densification_only[OF assms that] by auto
  then show "\<not> list_ex is_geo_loss dens" by (auto simp: list_ex_iff)
qed

text \<open>
  An iteration that calls \<^verbatim>\<open>densify_and_prune\<close> has its events in this one shape.
\<close>

lemma densify_iteration_shape:
  assumes "training_iteration opt vc i k = Inr (evs, k')"
    and "evs = pre @ DensifyAndPrune s # post"
  shows "pre = forward_events opt vc i k @ [MaxRadiiUpdate, AddDensificationStats]"
    and "post = FindKNN # (if i mod opacity_reset_interval opt = 0 \<or>
                       (white_background opt \<and> i = densify_from_iter opt)
                    then [ResetOpacity] else []) @ step_events opt i"
    and "s = size_threshold opt i"
proof -
  from training_iteration_split[OF assms(1)] obtain dens where
    d: "densification opt i k = Inr (dens, k')" and
    e: "evs = forward_events opt vc i k @ dens @ step_events opt i" by blast
  let ?r = "if i mod opacity_reset_interval opt = 0 \<or>
               (white_background opt \<and> i = densify_from_iter opt)
            then [ResetOpacity] else []"
  from assms(2) have "DensifyAndPrune s \<in> set evs" by simp
  with e have m: "DensifyAndPrune s \<in> set dens"
    by (simp add: forward_events_free step_events_free)
  from densification_only[OF d m] show s: "s = size_threshold opt i" by simp
  have "i < densify_until_iter opt"
  proof (rule ccontr)
    assume "\<not> i < densify_until_iter opt"
    then consider "i = densify_until_iter opt" | "densify_until_iter opt < i" by linarith
    then show False
    proof cases
      case 1
      from densification_at(1)[OF d 1] m show False by simp
    next
      case 2
      from densification_after(1)[OF d 2] m show False by (auto split: if_splits)
    qed
  qed
  from densification_before(1)[OF d this] m
  have dens: "dens = [MaxRadiiUpdate, AddDensificationStats] @ DensifyAndPrune s # FindKNN # ?r"
    by (auto simp: s split: if_splits)
  let ?a = "forward_events opt vc i k @ [MaxRadiiUpdate, AddDensificationStats]"
  let ?b = "FindKNN # ?r @ step_events opt i"
  have a: "DensifyAndPrune s \<notin> set ?a" by (simp add: forward_events_free)
  have b: "DensifyAndPrune s \<notin> set ?b" by (simp add: step_events_free)
  have "?a @ DensifyAndPrune s # ?b = pre @ DensifyAndPrune s # post"
    using e dens assms(2) by simp
  with append_Cons_eq_iff[OF a b] show "pre = ?a" and "post = ?b" by auto
qed

lemma filter_none: "\<not> list_ex P xs \<Longrightarrow> filter P xs = []"
  by (induction xs) auto

lemma count_list_none: "x \<notin> set xs \<Longrightarrow> count_list xs x = 0"
  by (induction xs) auto

section \<open>The claims\<close>

subsection \<open>Gradient statistics\<close>

text \<open>
  C1, as the specification states it: on every iteration from the first to the
  configured total the statistics update runs exactly once. The run \<open>demo_run\<close> refutes
  it: iteration 4 is not before \<^verbatim>\<open>densify_until_iter\<close>, and none of its events is a
  statistics update.
\<close>

theorem stats_update_every_iteration_counterexample:
  "training demo_opt demo_visible None = Inr demo_run \<and>
   (4, demo_ev4) \<in> set (iters demo_run) \<and>
   1 \<le> (4::int) \<and> 4 \<le> iterations demo_opt \<and>
   \<not> list_ex is_stats demo_ev4"
  using demo_training by (simp add: demo_defs)

text \<open>
  C1, amended: on every executed iteration before \<^verbatim>\<open>densify_until_iter\<close> the update of
  the running maximum radius and \<^verbatim>\<open>add_densification_stats\<close> run exactly once, one
  directly after the other, after the backward pass of that iteration and before any
  \<^verbatim>\<open>densify_and_prune\<close> of that iteration; from \<^verbatim>\<open>densify_until_iter\<close> on they do not
  run at all.
\<close>

theorem stats_update_schedule:
  assumes "training opt vc ck = Inr r" and "(i, evs) \<in> set (iters r)"
  shows "(i < densify_until_iter opt \<longrightarrow>
            (\<exists>pre post. evs = pre @ [MaxRadiiUpdate, AddDensificationStats] @ post \<and>
               Backward \<in> set pre \<and> Backward \<notin> set post \<and>
               \<not> list_ex is_stats pre \<and> \<not> list_ex is_stats post \<and>
               \<not> list_ex is_densify pre)) \<and>
         (densify_until_iter opt \<le> i \<longrightarrow> \<not> list_ex is_stats evs)"
proof -
  from assms obtain k0 k1 dens where
    d: "densification opt i k0 = Inr (dens, k1)" and
    e: "evs = forward_events opt vc i k0 @ dens @ step_events opt i"
    by (rule training_iteration_events)
  show ?thesis
  proof (intro conjI impI)
    assume lt: "i < densify_until_iter opt"
    define rest where "rest =
      (if densify_from_iter opt < i \<and> i mod densification_interval opt = 0
       then [DensifyAndPrune (size_threshold opt i), FindKNN] else [])
      @ (if i mod opacity_reset_interval opt = 0 \<or>
            (white_background opt \<and> i = densify_from_iter opt)
         then [ResetOpacity] else [])"
    have dens: "dens = [MaxRadiiUpdate, AddDensificationStats] @ rest"
      using densification_before(1)[OF d lt] by (simp add: rest_def)
    have rest: "\<not> list_ex is_stats rest" "Backward \<notin> set rest"
      by (simp_all add: rest_def)
    let ?pre = "forward_events opt vc i k0" and ?post = "rest @ step_events opt i"
    have "evs = ?pre @ [MaxRadiiUpdate, AddDensificationStats] @ ?post"
      using e dens by simp
    moreover have "Backward \<in> set ?pre" by (rule forward_events_Backward)
    moreover have "Backward \<notin> set ?post" using rest by (simp add: step_events_free)
    moreover have "\<not> list_ex is_stats ?pre" by (rule forward_events_no_stats)
    moreover have "\<not> list_ex is_stats ?post" using rest step_events_no_stats by simp
    moreover have "\<not> list_ex is_densify ?pre" by (rule forward_events_no_densify)
    ultimately show "\<exists>pre post. evs = pre @ [MaxRadiiUpdate, AddDensificationStats] @ post \<and>
               Backward \<in> set pre \<and> Backward \<notin> set post \<and>
               \<not> list_ex is_stats pre \<and> \<not> list_ex is_stats post \<and>
               \<not> list_ex is_densify pre" by blast
  next
    assume ge: "densify_until_iter opt \<le> i"
    have "\<not> list_ex is_stats dens"
    proof (cases "i = densify_until_iter opt")
      case True
      from densification_at(1)[OF d True] show ?thesis by simp
    next
      case False
      with ge have "densify_until_iter opt < i" by simp
      from densification_after(1)[OF d this] show ?thesis by simp
    qed
    with e forward_events_no_stats step_events_no_stats
    show "\<not> list_ex is_stats evs" by simp
  qed
qed

theorem stats_update_schedule_witness:
  "training demo_opt demo_visible None = Inr demo_run \<and>
   (3, demo_ev3) \<in> set (iters demo_run) \<and>
   3 < densify_until_iter demo_opt \<and>
   (\<exists>pre post. demo_ev3 = pre @ [MaxRadiiUpdate, AddDensificationStats] @ post \<and>
      Backward \<in> set pre \<and> Backward \<notin> set post \<and>
      \<not> list_ex is_stats pre \<and> \<not> list_ex is_stats post \<and>
      \<not> list_ex is_densify pre)"
proof -
  have m: "(3, demo_ev3) \<in> set (iters demo_run)" by (simp add: demo_run_def)
  have u: "3 < densify_until_iter demo_opt" by (simp add: demo_opt_def)
  from stats_update_schedule[OF demo_training m] u demo_training m show ?thesis by blast
qed

subsection \<open>When densification runs\<close>

text \<open>
  C2, as the specification states it: \<^verbatim>\<open>densify_and_prune\<close> runs at iteration \<open>i\<close>
  exactly when \<open>i\<close> lies in the half-open window from \<^verbatim>\<open>densify_from_iter\<close> and is a
  multiple of the interval, so in particular at \<^verbatim>\<open>densify_from_iter\<close> itself. In
  \<open>demo_run\<close> iteration 2 is \<^verbatim>\<open>densify_from_iter\<close>, lies before
  \<^verbatim>\<open>densify_until_iter\<close> and is a multiple of the interval, and it has no
  \<^verbatim>\<open>densify_and_prune\<close>.
\<close>

theorem densify_window_start_counterexample:
  "training demo_opt demo_visible None = Inr demo_run \<and>
   (2, demo_ev2) \<in> set (iters demo_run) \<and>
   densify_from_iter demo_opt \<le> 2 \<and> 2 < densify_until_iter demo_opt \<and>
   densification_interval demo_opt \<noteq> 0 \<and> 2 mod densification_interval demo_opt = 0 \<and>
   \<not> list_ex is_densify demo_ev2"
  using demo_training by (simp add: demo_defs)

text \<open>
  C2, amended: \<^verbatim>\<open>densify_and_prune\<close> runs at an executed iteration \<open>i\<close>, and then
  exactly once, if and only if \<open>i\<close> lies strictly between \<^verbatim>\<open>densify_from_iter\<close> and
  \<^verbatim>\<open>densify_until_iter\<close> and is a multiple of \<^verbatim>\<open>densification_interval\<close>; an iteration
  equal to \<^verbatim>\<open>densify_from_iter\<close> never runs it. (In a run that completes, the interval
  is not zero at any iteration where the modulus is taken.)
\<close>

theorem densify_schedule:
  assumes "training opt vc ck = Inr r" and "(i, evs) \<in> set (iters r)"
  shows "length (filter is_densify evs) =
           (if densify_from_iter opt < i \<and> i < densify_until_iter opt \<and>
               i mod densification_interval opt = 0 then 1 else 0)
         \<and> (densify_from_iter opt < i \<and> i < densify_until_iter opt
              \<longrightarrow> densification_interval opt \<noteq> 0)"
proof -
  from assms obtain k0 k1 dens where
    d: "densification opt i k0 = Inr (dens, k1)" and
    e: "evs = forward_events opt vc i k0 @ dens @ step_events opt i"
    by (rule training_iteration_events)
  have f: "filter is_densify evs = filter is_densify dens"
    using e by (simp add: filter_none forward_events_no_densify step_events_no_densify)
  consider "i < densify_until_iter opt" | "i = densify_until_iter opt"
    | "densify_until_iter opt < i" by linarith
  then show ?thesis
  proof cases
    case 1
    from densification_before(1,4)[OF d 1] show ?thesis by (simp add: f 1)
  next
    case 2
    from densification_at(1)[OF d 2] show ?thesis by (simp add: f 2)
  next
    case 3
    from densification_after(1)[OF d 3] 3 show ?thesis by (simp add: f)
  qed
qed

theorem densify_schedule_witness:
  "training demo_opt demo_visible None = Inr demo_run \<and>
   (3, demo_ev3) \<in> set (iters demo_run) \<and>
   densify_from_iter demo_opt < 3 \<and> 3 < densify_until_iter demo_opt \<and>
   3 mod densification_interval demo_opt = 0 \<and>
   length (filter is_densify demo_ev3) = 1 \<and>
   densification_interval demo_opt \<noteq> 0"
proof -
  have m: "(3, demo_ev3) \<in> set (iters demo_run)" by (simp add: demo_run_def)
  from densify_schedule[OF demo_training m] demo_training m show ?thesis
    by (simp add: demo_opt_def)
qed

subsection \<open>When the opacity is reset\<close>

text \<open>
  C3, as the specification states it: outside the densification window
  \<^verbatim>\<open>reset_opacity\<close> runs only under the white-background trigger. In \<open>demo_run\<close>
  iteration 1 lies before \<^verbatim>\<open>densify_from_iter\<close>, the background is not white, and
  \<^verbatim>\<open>reset_opacity\<close> runs.
\<close>

theorem reset_outside_window_counterexample:
  "training demo_opt demo_visible None = Inr demo_run \<and>
   (1, demo_ev1) \<in> set (iters demo_run) \<and>
   1 < densify_from_iter demo_opt \<and> white_background demo_opt = False \<and>
   ResetOpacity \<in> set demo_ev1"
  using demo_training by (simp add: demo_defs)

text \<open>
  C3, amended: \<^verbatim>\<open>reset_opacity\<close> runs at an executed iteration \<open>i\<close>, and then exactly
  once, if and only if \<open>i\<close> is before \<^verbatim>\<open>densify_until_iter\<close> and either \<open>i\<close> is a
  multiple of \<^verbatim>\<open>opacity_reset_interval\<close> or the background is white and \<open>i\<close> equals
  \<^verbatim>\<open>densify_from_iter\<close>. Either trigger suffices; the lower end of the window plays
  no part, and from \<^verbatim>\<open>densify_until_iter\<close> on neither trigger fires.
\<close>

theorem reset_opacity_schedule:
  assumes "training opt vc ck = Inr r" and "(i, evs) \<in> set (iters r)"
  shows "count_list evs ResetOpacity =
           (if i < densify_until_iter opt \<and>
               (i mod opacity_reset_interval opt = 0 \<or>
                (white_background opt \<and> i = densify_from_iter opt)) then 1 else 0)
         \<and> (i < densify_until_iter opt \<longrightarrow> opacity_reset_interval opt \<noteq> 0)"
proof -
  from assms obtain k0 k1 dens where
    d: "densification opt i k0 = Inr (dens, k1)" and
    e: "evs = forward_events opt vc i k0 @ dens @ step_events opt i"
    by (rule training_iteration_events)
  have f: "count_list evs ResetOpacity = count_list dens ResetOpacity"
    using e by (simp add: count_list_none forward_events_free step_events_free)
  consider "i < densify_until_iter opt" | "i = densify_until_iter opt"
    | "densify_until_iter opt < i" by linarith
  then show ?thesis
  proof cases
    case 1
    from densification_before(1,3)[OF d 1] show ?thesis by (simp add: f 1)
  next
    case 2
    from densification_at(1)[OF d 2] show ?thesis by (simp add: f 2)
  next
    case 3
    from densification_after(1)[OF d 3] 3 show ?thesis by (simp add: f)
  qed
qed

theorem reset_opacity_schedule_witness:
  "training demo_opt demo_visible None = Inr demo_run \<and>
   (3, demo_ev3) \<in> set (iters demo_run) \<and>
   3 < densify_until_iter demo_opt \<and> 3 mod opacity_reset_interval demo_opt = 0 \<and>
   count_list demo_ev3 ResetOpacity = 1 \<and> opacity_reset_interval demo_opt \<noteq> 0"
proof -
  have m: "(3, demo_ev3) \<in> set (iters demo_run)" by (simp add: demo_run_def)
  from reset_opacity_schedule[OF demo_training m] demo_training m show ?thesis
    by (simp add: demo_opt_def)
qed

subsection \<open>The optimizer step\<close>

text \<open>
  C4, as the specification states it: the optimizer step and the gradient clear run on
  every iteration, the final one included. In \<open>demo_run\<close> iteration 5 is the final
  iteration and has neither.
\<close>

theorem optimizer_step_final_iteration_counterexample:
  "training demo_opt demo_visible None = Inr demo_run \<and>
   (5, demo_ev5) \<in> set (iters demo_run) \<and>
   iterations demo_opt = 5 \<and>
   OptimizerStep \<notin> set demo_ev5 \<and> ZeroGrad \<notin> set demo_ev5"
  using demo_training by (simp add: demo_defs)

text \<open>
  C4, amended: on every executed iteration except the final one, \<^verbatim>\<open>optimizer.step()\<close>
  and then \<^verbatim>\<open>zero_grad()\<close> run exactly once each, after any \<^verbatim>\<open>densify_and_prune\<close> of
  that iteration; on the final iteration (the configured total) neither runs.
\<close>

theorem optimizer_step_schedule:
  assumes "training opt vc ck = Inr r" and "(i, evs) \<in> set (iters r)"
  shows "(i < iterations opt \<longrightarrow>
            (\<exists>pre post. evs = pre @ [OptimizerStep, ZeroGrad] @ post \<and>
               OptimizerStep \<notin> set pre \<and> ZeroGrad \<notin> set pre \<and>
               OptimizerStep \<notin> set post \<and> ZeroGrad \<notin> set post \<and>
               \<not> list_ex is_densify post)) \<and>
         (i = iterations opt \<longrightarrow> OptimizerStep \<notin> set evs \<and> ZeroGrad \<notin> set evs)"
proof -
  from assms obtain k0 k1 dens where
    d: "densification opt i k0 = Inr (dens, k1)" and
    e: "evs = forward_events opt vc i k0 @ dens @ step_events opt i"
    by (rule training_iteration_events)
  note dn = densification_free(1,2)[OF d]
  note fw = forward_events_free(4,5)[of opt vc i k0]
  show ?thesis
  proof (intro conjI impI)
    assume lt: "i < iterations opt"
    let ?pre = "forward_events opt vc i k0 @ dens
                @ (if wandb_found opt then [WandbLog] else [])"
    let ?post = "if i \<in> set (checkpoint_iterations opt) then [SaveCheckpoint i] else []"
    have "evs = ?pre @ [OptimizerStep, ZeroGrad] @ ?post"
      using e lt by (simp add: step_events_def)
    moreover have "OptimizerStep \<notin> set ?pre" "ZeroGrad \<notin> set ?pre"
      using dn fw by simp_all
    moreover have "OptimizerStep \<notin> set ?post" "ZeroGrad \<notin> set ?post"
      "\<not> list_ex is_densify ?post" by simp_all
    ultimately show "\<exists>pre post. evs = pre @ [OptimizerStep, ZeroGrad] @ post \<and>
               OptimizerStep \<notin> set pre \<and> ZeroGrad \<notin> set pre \<and>
               OptimizerStep \<notin> set post \<and> ZeroGrad \<notin> set post \<and>
               \<not> list_ex is_densify post" by blast
  next
    assume eq: "i = iterations opt"
    have "OptimizerStep \<notin> set (step_events opt i)" "ZeroGrad \<notin> set (step_events opt i)"
      using eq by (auto dest: step_events_only)
    then show "OptimizerStep \<notin> set evs" "ZeroGrad \<notin> set evs"
      using e dn fw by simp_all
  qed
qed

theorem optimizer_step_schedule_witness:
  "training demo_opt demo_visible None = Inr demo_run \<and>
   (3, demo_ev3) \<in> set (iters demo_run) \<and>
   3 < iterations demo_opt \<and>
   (\<exists>pre post. demo_ev3 = pre @ [OptimizerStep, ZeroGrad] @ post \<and>
      OptimizerStep \<notin> set pre \<and> ZeroGrad \<notin> set pre \<and>
      OptimizerStep \<notin> set post \<and> ZeroGrad \<notin> set post \<and>
      \<not> list_ex is_densify post)"
proof -
  have m: "(3, demo_ev3) \<in> set (iters demo_run)" by (simp add: demo_run_def)
  have u: "3 < iterations demo_opt" by (simp add: demo_opt_def)
  from optimizer_step_schedule[OF demo_training m] u demo_training m show ?thesis by blast
qed

subsection \<open>Mutation before the optimizer step\<close>

text \<open>
  C6: in every executed iteration that calls \<^verbatim>\<open>densify_and_prune\<close>, no optimizer step
  (and no gradient clear) of that iteration comes before the call, and when the
  iteration steps the optimizer at all (it is not the final one), the step comes after
  the call. The call is one event, so the compaction it performs is over before the
  step.
\<close>

theorem densify_before_optimizer_step:
  assumes "training opt vc ck = Inr r" and "(i, evs) \<in> set (iters r)"
    and "evs = pre @ DensifyAndPrune s # post"
  shows "OptimizerStep \<notin> set pre \<and> ZeroGrad \<notin> set pre \<and>
         (i < iterations opt \<longrightarrow> OptimizerStep \<in> set post \<and> ZeroGrad \<in> set post)"
proof -
  from training_member(1)[OF assms(1,2)] obtain k0 k1 where
    st: "training_iteration opt vc i k0 = Inr (evs, k1)" by blast
  note sh = densify_iteration_shape(1,2)[OF st assms(3)]
  have "OptimizerStep \<notin> set pre" "ZeroGrad \<notin> set pre"
    unfolding sh(1) by (simp_all add: forward_events_free)
  moreover have "OptimizerStep \<in> set post \<and> ZeroGrad \<in> set post" if "i < iterations opt"
    unfolding sh(2) using that by (simp add: step_events_def)
  ultimately show ?thesis by blast
qed

theorem densify_before_optimizer_step_witness:
  "training demo_opt demo_visible None = Inr demo_run \<and>
   (3, demo_ev3) \<in> set (iters demo_run) \<and>
   demo_ev3 = [UpdateLearningRate 3, Render, PhotometricLoss, Backward, TrainingReport 3,
               MaxRadiiUpdate, AddDensificationStats]
              @ DensifyAndPrune (Some 20)
              # [FindKNN, ResetOpacity, OptimizerStep, ZeroGrad, SaveCheckpoint 3] \<and>
   3 < iterations demo_opt \<and>
   OptimizerStep \<in> set [FindKNN, ResetOpacity, OptimizerStep, ZeroGrad, SaveCheckpoint 3] \<and>
   ZeroGrad \<in> set [FindKNN, ResetOpacity, OptimizerStep, ZeroGrad, SaveCheckpoint 3] \<and>
   OptimizerStep \<notin> set [UpdateLearningRate 3, Render, PhotometricLoss, Backward,
                          TrainingReport 3, MaxRadiiUpdate, AddDensificationStats]"
proof -
  have m: "(3, demo_ev3) \<in> set (iters demo_run)" by (simp add: demo_run_def)
  have s: "demo_ev3 = [UpdateLearningRate 3, Render, PhotometricLoss, Backward,
               TrainingReport 3, MaxRadiiUpdate, AddDensificationStats]
              @ DensifyAndPrune (Some 20)
              # [FindKNN, ResetOpacity, OptimizerStep, ZeroGrad, SaveCheckpoint 3]"
    by (simp add: demo_ev3_def)
  have u: "3 < iterations demo_opt" by (simp add: demo_opt_def)
  from densify_before_optimizer_step[OF demo_training m s] u demo_training m s
  show ?thesis by blast
qed

subsection \<open>The size threshold\<close>

text \<open>
  C7: in every call of \<^verbatim>\<open>densify_and_prune\<close> the \<^verbatim>\<open>size_threshold\<close> argument is
  \<^verbatim>\<open>None\<close> at every iteration up to and including \<^verbatim>\<open>opacity_reset_interval\<close>, and is
  the fixed value 20 at every iteration strictly past it.
\<close>

theorem size_threshold_schedule:
  assumes "training opt vc ck = Inr r" and "(i, evs) \<in> set (iters r)"
    and "DensifyAndPrune s \<in> set evs"
  shows "(i \<le> opacity_reset_interval opt \<longrightarrow> s = None) \<and>
         (opacity_reset_interval opt < i \<longrightarrow> s = Some 20)"
proof -
  from training_member(1)[OF assms(1,2)] obtain k0 k1 where
    st: "training_iteration opt vc i k0 = Inr (evs, k1)" by blast
  from assms(3) obtain pre post where "evs = pre @ DensifyAndPrune s # post"
    by (auto simp: in_set_conv_decomp)
  from densify_iteration_shape(3)[OF st this] show ?thesis
    by (simp add: size_threshold_def)
qed

theorem size_threshold_schedule_witness:
  "training demo_opt demo_visible None = Inr demo_run \<and>
   (3, demo_ev3) \<in> set (iters demo_run) \<and>
   DensifyAndPrune (Some 20) \<in> set demo_ev3 \<and>
   opacity_reset_interval demo_opt < 3 \<and> Some (20::int) = Some 20"
proof -
  have m: "(3, demo_ev3) \<in> set (iters demo_run)" by (simp add: demo_run_def)
  have s: "DensifyAndPrune (Some 20) \<in> set demo_ev3" by (simp add: demo_ev3_def)
  have u: "opacity_reset_interval demo_opt < 3" by (simp add: demo_opt_def)
  from size_threshold_schedule[OF demo_training m s] u demo_training m s
  show ?thesis by blast
qed

subsection \<open>Graph rebuilds after the window\<close>

text \<open>
  C8, as the specification states it: at every iteration at or beyond
  \<^verbatim>\<open>densify_until_iter\<close> that is a multiple of the fixed interval the graph is rebuilt.
  In \<open>boundary_run\<close> iteration 3000 equals \<^verbatim>\<open>densify_until_iter\<close> and is a multiple of
  3000, and no \<^verbatim>\<open>findKNN\<close> runs.
\<close>

theorem post_window_rebuild_counterexample:
  "training boundary_opt demo_visible (Some ((), 2999)) = Inr boundary_run \<and>
   (3000, boundary_ev3000) \<in> set (iters boundary_run) \<and>
   densify_until_iter boundary_opt \<le> 3000 \<and> (3000::int) mod 3000 = 0 \<and>
   FindKNN \<notin> set boundary_ev3000"
  using boundary_training by (simp add: boundary_defs)

text \<open>
  C8, amended: at every executed iteration strictly beyond \<^verbatim>\<open>densify_until_iter\<close> the
  graph is rebuilt, once, exactly when the iteration is a multiple of 3000, and at no
  other such iteration; at the iteration equal to \<^verbatim>\<open>densify_until_iter\<close> the graph is
  not rebuilt, whether or not that iteration is a multiple of 3000. The period 3000 is
  a constant of the code; before \<^verbatim>\<open>densify_until_iter\<close> the graph is rebuilt exactly
  at the iterations past \<^verbatim>\<open>densify_from_iter\<close> that are multiples of
  \<^verbatim>\<open>densification_interval\<close>, so the later cadence is the coarser one whenever that
  interval is below 3000.
\<close>

theorem graph_rebuild_schedule:
  assumes "training opt vc ck = Inr r" and "(i, evs) \<in> set (iters r)"
  shows "(densify_until_iter opt < i \<longrightarrow>
            count_list evs FindKNN = (if i mod 3000 = 0 then 1 else 0)) \<and>
         (i = densify_until_iter opt \<longrightarrow> count_list evs FindKNN = 0) \<and>
         (i < densify_until_iter opt \<longrightarrow>
            count_list evs FindKNN =
              (if densify_from_iter opt < i \<and> i mod densification_interval opt = 0
               then 1 else 0))"
proof -
  from assms obtain k0 k1 dens where
    d: "densification opt i k0 = Inr (dens, k1)" and
    e: "evs = forward_events opt vc i k0 @ dens @ step_events opt i"
    by (rule training_iteration_events)
  have f: "count_list evs FindKNN = count_list dens FindKNN"
    using e by (simp add: count_list_none forward_events_free step_events_free)
  show ?thesis
  proof (intro conjI impI)
    assume gt: "densify_until_iter opt < i"
    from densification_after(1)[OF d gt]
    show "count_list evs FindKNN = (if i mod 3000 = 0 then 1 else 0)" by (simp add: f)
  next
    assume eq: "i = densify_until_iter opt"
    from densification_at(1)[OF d eq]
    show "count_list evs FindKNN = 0" by (simp add: f)
  next
    assume lt: "i < densify_until_iter opt"
    from densification_before(1)[OF d lt]
    show "count_list evs FindKNN =
              (if densify_from_iter opt < i \<and> i mod densification_interval opt = 0
               then 1 else 0)" by (simp add: f)
  qed
qed

theorem graph_rebuild_schedule_witness:
  "training resume_opt demo_visible (Some ((), 2999)) = Inr resume_run \<and>
   (3000, resume_ev3000) \<in> set (iters resume_run) \<and>
   densify_until_iter resume_opt < 3000 \<and> (3000::int) mod 3000 = 0 \<and>
   count_list resume_ev3000 FindKNN = 1 \<and>
   training boundary_opt demo_visible (Some ((), 2999)) = Inr boundary_run \<and>
   (3000, boundary_ev3000) \<in> set (iters boundary_run) \<and>
   3000 = densify_until_iter boundary_opt \<and>
   count_list boundary_ev3000 FindKNN = 0"
proof -
  have m: "(3000, resume_ev3000) \<in> set (iters resume_run)" by (simp add: resume_run_def)
  have b: "(3000, boundary_ev3000) \<in> set (iters boundary_run)"
    by (simp add: boundary_run_def)
  from graph_rebuild_schedule[OF resume_training m]
    graph_rebuild_schedule[OF boundary_training b]
    resume_training m boundary_training b
  show ?thesis by (simp add: resume_opt_def boundary_opt_def)
qed

subsection \<open>The neighbour graph is never used stale\<close>

lemma fresh_uses_append:
  "fresh_uses g (xs @ ys) = (fresh_uses g xs \<and> fresh_uses (foldl graph_step g xs) ys)"
proof (induction xs arbitrary: g)
  case Nil
  then show ?case by simp
next
  case (Cons x xs)
  obtain i e where x: "x = (i, e)" by (cases x)
  show ?case using Cons.IH by (cases e) (simp_all add: x)
qed

lemma quiet_events:
  assumes "\<And>e. e \<in> set xs \<Longrightarrow>
             e \<noteq> FindKNN \<and> \<not> is_densify e \<and> (\<forall>j. e = GeoLoss j \<longrightarrow> g = Some j)"
  shows "fresh_uses g (map (Pair i) xs) \<and> foldl graph_step g (map (Pair i) xs) = g"
  using assms
proof (induction xs)
  case Nil
  then show ?case by simp
next
  case (Cons e xs)
  from Cons.prems have e: "e \<noteq> FindKNN" "\<not> is_densify e" "\<forall>j. e = GeoLoss j \<longrightarrow> g = Some j"
    by auto
  from Cons have IH: "fresh_uses g (map (Pair i) xs) \<and> foldl graph_step g (map (Pair i) xs) = g"
    by auto
  show ?case using e IH by (cases e) simp_all
qed

lemma forward_events_quiet:
  "fresh_uses k (map (Pair i) (forward_events opt vc i k)) \<and>
   foldl graph_step k (map (Pair i) (forward_events opt vc i k)) = k"
  by (rule quiet_events) (auto dest: forward_events_only)

lemma step_events_quiet:
  "fresh_uses k (map (Pair i) (step_events opt i)) \<and>
   foldl graph_step k (map (Pair i) (step_events opt i)) = k"
  by (rule quiet_events) (auto dest: step_events_only)

lemma densification_graph:
  assumes "densification opt i k = Inr (dens, k')"
  shows "fresh_uses k (map (Pair i) dens) \<and> foldl graph_step k (map (Pair i) dens) = k'"
proof -
  consider "i < densify_until_iter opt" | "i = densify_until_iter opt"
    | "densify_until_iter opt < i" by linarith
  then show ?thesis
  proof cases
    case 1
    from densification_before(1,2)[OF assms 1] show ?thesis by simp
  next
    case 2
    from densification_at[OF assms 2] show ?thesis by simp
  next
    case 3
    from densification_after[OF assms 3] show ?thesis by simp
  qed
qed

lemma training_iteration_graph:
  assumes "training_iteration opt vc i k = Inr (evs, k')"
  shows "fresh_uses k (map (Pair i) evs) \<and> foldl graph_step k (map (Pair i) evs) = k'"
proof -
  from training_iteration_split[OF assms] obtain dens where
    d: "densification opt i k = Inr (dens, k')" and
    e: "evs = forward_events opt vc i k @ dens @ step_events opt i" by blast
  show ?thesis
    using densification_graph[OF d] forward_events_quiet[of k i opt vc]
      step_events_quiet[of k' i opt]
    by (simp add: e fresh_uses_append)
qed

lemma training_loop_graph:
  "training_loop opt vc k its = Inr (tr, k') \<Longrightarrow>
     fresh_uses k (timeline tr) \<and> foldl graph_step k (timeline tr) = k'"
proof (induction its arbitrary: k tr)
  case Nil
  then show ?case by (simp add: timeline_def)
next
  case (Cons j js)
  from Cons.prems obtain e k1 tr' where
    st: "training_iteration opt vc j k = Inr (e, k1)" and
    lp: "training_loop opt vc k1 js = Inr (tr', k')" and
    tr: "tr = (j, e) # tr'"
    by (rule training_loop_unfold)
  have "timeline tr = map (Pair j) e @ timeline tr'"
    by (simp add: tr timeline_def)
  then show ?case
    using training_iteration_graph[OF st] Cons.IH[OF lp]
    by (simp add: fresh_uses_append)
qed

text \<open>
  C5: every \<^verbatim>\<open>densify_and_prune\<close> call is followed at once, in the same iteration and
  before anything else, by \<^verbatim>\<open>findKNN\<close>; and along the whole run every use of the graph
  by the geometric loss indexes the graph that was built after the last
  \<^verbatim>\<open>densify_and_prune\<close>, that is, against the population layout it was built from.
  (Between a rebuild and a use the optimizer may step and the opacity may be reset;
  neither renumbers primitives.)
\<close>

theorem graph_never_stale:
  assumes "training opt vc ck = Inr r"
  shows "fresh_uses None (timeline (iters r)) \<and>
         (\<forall>i evs pre s post. (i, evs) \<in> set (iters r) \<and> evs = pre @ DensifyAndPrune s # post
            \<longrightarrow> (\<exists>post'. post = FindKNN # post'))"
proof
  from assms obtain k where
    L: "training_loop opt vc None [first_iter ck + 1 .. iterations opt] = Inr (iters r, k)"
    by (rule training_unfold)
  from training_loop_graph[OF L] show "fresh_uses None (timeline (iters r))" by simp
  show "\<forall>i evs pre s post. (i, evs) \<in> set (iters r) \<and> evs = pre @ DensifyAndPrune s # post
            \<longrightarrow> (\<exists>post'. post = FindKNN # post')"
  proof (intro allI impI, elim conjE)
    fix i evs pre s post
    assume m: "(i, evs) \<in> set (iters r)" and sh: "evs = pre @ DensifyAndPrune s # post"
    from training_member(1)[OF assms m] obtain k0 k1 where
      st: "training_iteration opt vc i k0 = Inr (evs, k1)" by blast
    from densify_iteration_shape(2)[OF st sh] show "\<exists>post'. post = FindKNN # post'"
      by simp
  qed
qed

theorem graph_never_stale_witness:
  "training demo_opt demo_visible None = Inr demo_run \<and>
   fresh_uses None (timeline (iters demo_run)) \<and>
   (3, demo_ev3) \<in> set (iters demo_run) \<and>
   demo_ev3 = [UpdateLearningRate 3, Render, PhotometricLoss, Backward, TrainingReport 3,
               MaxRadiiUpdate, AddDensificationStats]
              @ DensifyAndPrune (Some 20)
              # [FindKNN, ResetOpacity, OptimizerStep, ZeroGrad, SaveCheckpoint 3] \<and>
   (\<exists>post'. [FindKNN, ResetOpacity, OptimizerStep, ZeroGrad, SaveCheckpoint 3]
             = FindKNN # post') \<and>
   (4, GeoLoss 3) \<in> set (timeline (iters demo_run))"
proof -
  have m: "(3, demo_ev3) \<in> set (iters demo_run)" by (simp add: demo_run_def)
  have s: "demo_ev3 = [UpdateLearningRate 3, Render, PhotometricLoss, Backward,
               TrainingReport 3, MaxRadiiUpdate, AddDensificationStats]
              @ DensifyAndPrune (Some 20)
              # [FindKNN, ResetOpacity, OptimizerStep, ZeroGrad, SaveCheckpoint 3]"
    by (simp add: demo_ev3_def)
  have g: "(4, GeoLoss 3) \<in> set (timeline (iters demo_run))"
    by (simp add: timeline_def demo_defs)
  from graph_never_stale[OF demo_training] demo_training m s g show ?thesis by blast
qed

subsection \<open>Checkpoints\<close>

text \<open>
  C9: a checkpoint is written at exactly the iterations listed in
  \<^verbatim>\<open>checkpoint_iterations\<close>, as the last action of the iteration, and it saves the
  model's capture together with that iteration's counter; training started from a
  checkpoint \<open>(snap, k)\<close> restores \<open>snap\<close> and executes exactly the iterations from
  \<open>k + 1\<close> to the configured total, in order, so that (when \<open>k\<close> is below the total) its
  first executed iteration is \<open>k + 1\<close> and its last is the total.
\<close>

theorem checkpoint_resume:
  assumes "training opt vc ck = Inr r"
  shows "(\<forall>i evs j. (i, evs) \<in> set (iters r) \<longrightarrow>
            (SaveCheckpoint j \<in> set evs) = (j = i \<and> i \<in> set (checkpoint_iterations opt)) \<and>
            (i \<in> set (checkpoint_iterations opt) \<longrightarrow> last evs = SaveCheckpoint i)) \<and>
         (\<forall>snap k. ck = Some (snap, k) \<longrightarrow>
            restored r = Some snap \<and>
            map fst (iters r) = [k + 1 .. iterations opt] \<and>
            (k < iterations opt \<longrightarrow>
               fst (hd (iters r)) = k + 1 \<and> fst (last (iters r)) = iterations opt))"
proof (intro conjI allI impI)
  fix i evs j
  assume m: "(i, evs) \<in> set (iters r)"
  from assms m obtain k0 k1 dens where
    d: "densification opt i k0 = Inr (dens, k1)" and
    e: "evs = forward_events opt vc i k0 @ dens @ step_events opt i"
    by (rule training_iteration_events)
  have "(SaveCheckpoint j \<in> set (step_events opt i))
          = (j = i \<and> i \<in> set (checkpoint_iterations opt))"
    by (auto simp: step_events_def)
  then show "(SaveCheckpoint j \<in> set evs) = (j = i \<and> i \<in> set (checkpoint_iterations opt))"
    using densification_free(4)[OF d] by (simp add: e forward_events_free)
  assume "i \<in> set (checkpoint_iterations opt)"
  then show "last evs = SaveCheckpoint i"
    by (simp add: e step_events_def)
next
  fix snap k
  assume ck: "ck = Some (snap, k)"
  from assms obtain k' where "restored r = map_option fst ck" by (rule training_unfold)
  then show "restored r = Some snap" by (simp add: ck)
  have its: "map fst (iters r) = [k + 1 .. iterations opt]"
    using training_iterations[OF assms] by (simp add: ck first_iter_def)
  then show "map fst (iters r) = [k + 1 .. iterations opt]" .
  assume lt: "k < iterations opt"
  then have "[k + 1 .. iterations opt] \<noteq> []" by simp
  with its have ne: "iters r \<noteq> []" by auto
  have "fst (hd (iters r)) = hd (map fst (iters r))" using ne by (simp add: hd_map)
  also have "\<dots> = k + 1" using lt by (simp add: its upto_rec1)
  finally show "fst (hd (iters r)) = k + 1" .
  have "fst (last (iters r)) = last (map fst (iters r))" using ne by (simp add: last_map)
  also have "\<dots> = iterations opt" using lt by (simp add: its upto_rec2)
  finally show "fst (last (iters r)) = iterations opt" .
qed

theorem checkpoint_resume_witness:
  "training resume_opt demo_visible (Some ((), 2999)) = Inr resume_run \<and>
   (3000, resume_ev3000) \<in> set (iters resume_run) \<and>
   3000 \<in> set (checkpoint_iterations resume_opt) \<and>
   SaveCheckpoint 3000 \<in> set resume_ev3000 \<and>
   last resume_ev3000 = SaveCheckpoint 3000 \<and>
   2999 < iterations resume_opt \<and>
   restored resume_run = Some () \<and>
   map fst (iters resume_run) = [2999 + 1 .. iterations resume_opt] \<and>
   fst (hd (iters resume_run)) = 2999 + 1 \<and>
   fst (last (iters resume_run)) = iterations resume_opt"
proof -
  have m: "(3000, resume_ev3000) \<in> set (iters resume_run)" by (simp add: resume_run_def)
  have c: "3000 \<in> set (checkpoint_iterations resume_opt)" by (simp add: resume_opt_def)
  have u: "2999 < iterations resume_opt" by (simp add: resume_opt_def)
  from checkpoint_resume[OF resume_training] m c u resume_training show ?thesis by blast
qed

subsection \<open>When the geometric term enters the loss\<close>

lemma training_iteration_knn:
  assumes "training_iteration opt vc i k = Inr (evs, k')"
  shows "(k' \<noteq> None) = (k \<noteq> None \<or> FindKNN \<in> set evs)"
    and "list_ex is_geo_loss evs = (k \<noteq> None \<and> 0 < vc i)"
proof -
  from training_iteration_split[OF assms] obtain dens where
    d: "densification opt i k = Inr (dens, k')" and
    e: "evs = forward_events opt vc i k @ dens @ step_events opt i" by blast
  have f: "(FindKNN \<in> set evs) = (FindKNN \<in> set dens)"
    by (simp add: e forward_events_free step_events_free)
  consider "i < densify_until_iter opt" | "i = densify_until_iter opt"
    | "densify_until_iter opt < i" by linarith
  then show "(k' \<noteq> None) = (k \<noteq> None \<or> FindKNN \<in> set evs)"
  proof cases
    case 1
    from densification_before(1,2)[OF d 1] show ?thesis by (auto simp: f)
  next
    case 2
    from densification_at[OF d 2] show ?thesis by (simp add: f)
  next
    case 3
    from densification_after[OF d 3] show ?thesis by (simp add: f)
  qed
  show "list_ex is_geo_loss evs = (k \<noteq> None \<and> 0 < vc i)"
    using densification_free(5)[OF d] step_events_no_geo_loss[of opt i]
    by (simp add: e forward_events_geo_loss)
qed

lemma training_loop_knn:
  "training_loop opt vc k its = Inr (tr, k') \<Longrightarrow>
     (k' \<noteq> None) = (k \<noteq> None \<or> list_ex (\<lambda>(j, e). FindKNN \<in> set e) tr)"
proof (induction its arbitrary: k tr)
  case Nil
  then show ?case by auto
next
  case (Cons j js)
  from Cons.prems obtain e k1 tr' where
    st: "training_iteration opt vc j k = Inr (e, k1)" and
    lp: "training_loop opt vc k1 js = Inr (tr', k')" and
    tr: "tr = (j, e) # tr'"
    by (rule training_loop_unfold)
  show ?case
    using training_iteration_knn(1)[OF st] Cons.IH[OF lp] by (auto simp: tr)
qed

text \<open>
  C10, as the specification states it: until the first \<^verbatim>\<open>densify_and_prune\<close> call has
  produced the first rebuild, the geometric term is never added. In \<open>resume_run\<close> no
  iteration calls \<^verbatim>\<open>densify_and_prune\<close> at all, and iteration 3001 adds the geometric
  term: the graph it uses was built by the periodic rebuild at iteration 3000.
\<close>

theorem geo_loss_without_densify_counterexample:
  "training resume_opt demo_visible (Some ((), 2999)) = Inr resume_run \<and>
   \<not> list_ex is_densify (concat (map snd (iters resume_run))) \<and>
   (3001, resume_ev3001) \<in> set (iters resume_run) \<and>
   GeoLoss 3000 \<in> set resume_ev3001"
  using resume_training by (simp add: resume_defs)

text \<open>
  C10, amended: from the start of training until the first neighbour-graph rebuild,
  whether it follows a \<^verbatim>\<open>densify_and_prune\<close> call or is the periodic rebuild after the
  window, the geometric term is never added to the loss; at any later iteration it is
  added exactly when at least one primitive is visible in that iteration's render.
\<close>

theorem geo_loss_schedule:
  assumes "training opt vc ck = Inr r" and "iters r = earlier @ (i, evs) # later"
  shows "list_ex is_geo_loss evs =
           (list_ex (\<lambda>(j, e). FindKNN \<in> set e) earlier \<and> 0 < vc i)"
proof -
  from assms(1) obtain k where
    L: "training_loop opt vc None [first_iter ck + 1 .. iterations opt] = Inr (iters r, k)"
    by (rule training_unfold)
  from training_loop_at[OF L assms(2)] obtain k0 k1 where
    pre: "training_loop opt vc None (map fst earlier) = Inr (earlier, k0)" and
    st: "training_iteration opt vc i k0 = Inr (evs, k1)" by blast
  from training_loop_knn[OF pre] training_iteration_knn(2)[OF st]
  show ?thesis by simp
qed

theorem geo_loss_schedule_witness:
  "training resume_opt demo_visible (Some ((), 2999)) = Inr resume_run \<and>
   iters resume_run = [(3000, resume_ev3000)] @ (3001, resume_ev3001) # [] \<and>
   list_ex is_geo_loss resume_ev3001 \<and>
   list_ex (\<lambda>(j, e). FindKNN \<in> set e) [(3000::int, resume_ev3000)] \<and>
   0 < demo_visible 3001"
proof -
  have s: "iters resume_run = [(3000, resume_ev3000)] @ (3001, resume_ev3001) # []"
    by (simp add: resume_run_def)
  have f: "list_ex (\<lambda>(j, e). FindKNN \<in> set e) [(3000::int, resume_ev3000)]"
    by (simp add: resume_ev3000_def)
  have v: "0 < demo_visible 3001" by (simp add: demo_visible_def)
  from geo_loss_schedule[OF resume_training s] f v resume_training s show ?thesis by blast
qed

end
